theory Spec2Isabelle
  imports Main
begin

section \<open>Shaping of OpenStreetMap elements (convert\_osm2sql.py)\<close>

text \<open>
  The development embeds \<open>shape_element\<close> of \<open>convert_osm2sql.py\<close> and the three
  constants it uses (\<open>LOWER\<close>, \<open>PROBLEMCHARS\<close> and the field lists). Strings are
  \<open>char list\<close>: a character is one of the 256 values of \<open>char\<close>, and on these the
  class \<open>\d\<close> of the regular expressions is the ten characters \<open>0\<close> to \<open>9\<close>.
  A \<open>KeyError\<close> of Python is the left injection of a sum; the implicit \<open>None\<close> that
  \<open>shape_element\<close> returns when no branch is taken is the constructor \<open>NoneResult\<close>.
\<close>

subsection \<open>Data\<close>

text \<open>
  An element of the parsed document: its tag, its attribute dictionary and its child
  elements in document order (text and tail are never read by the program).
\<close>

datatype element =
  Element (tag: string) (attrib: "string \<rightharpoonup> string") (children: "element list")

datatype error = KeyError string

text \<open>The dictionary appended to \<open>tags\<close>: keys \<open>id\<close>, \<open>key\<close>, \<open>value\<close>, \<open>type\<close>.\<close>

record tag_dict =
  t_id :: string
  t_key :: string
  t_value :: string
  t_type :: string

text \<open>The dictionary appended to \<open>way_nodes\<close>: keys \<open>id\<close>, \<open>node_id\<close>, \<open>position\<close>.\<close>

record nd_dict =
  nd_id :: string
  nd_node_id :: string
  nd_position :: nat

text \<open>
  What \<open>shape_element\<close> returns: the dictionary with the keys \<open>node\<close> and
  \<open>node_tags\<close>, the dictionary with the keys \<open>way\<close>, \<open>way_nodes\<close> and
  \<open>way_tags\<close>, or \<open>None\<close>.
\<close>

datatype shaped =
  NodeResult "string \<rightharpoonup> string" "tag_dict list"
| WayResult "string \<rightharpoonup> string" "nd_dict list" "tag_dict list"
| NoneResult

subsection \<open>Constants\<close>

definition NODE_FIELDS :: "string list" where
  "NODE_FIELDS =
     [''id'', ''lat'', ''lon'', ''user'', ''uid'', ''version'', ''changeset'', ''timestamp'']"

definition WAY_FIELDS :: "string list" where
  "WAY_FIELDS = [''id'', ''user'', ''uid'', ''version'', ''changeset'', ''timestamp'']"

text \<open>
  \<open>PROBLEMCHARS\<close> is one character class; \<open>search\<close> succeeds when some character of
  the string is in it. The class, in the order of the source:
  \<open>= + / & < > ; ' " ? % # $ @ , .\<close> space, tab, carriage return, newline.
\<close>

definition PROBLEMCHARS :: "char list" where
  "PROBLEMCHARS =
     [CHR ''='', CHR ''+'', CHR ''/'', CHR ''&'', CHR ''<'', CHR ''>'', CHR '';'',
      CHR 0x27, CHR 0x22, CHR ''?'', CHR ''%'', CHR ''#'', CHR ''$'', CHR ''@'',
      CHR '','', CHR ''.'', CHR '' '', CHR 0x09, CHR 0x0D, CHR 0x0A]"

definition PROBLEMCHARS_search :: "string \<Rightarrow> bool" where
  "PROBLEMCHARS_search s = list_ex (\<lambda>c. c \<in> set PROBLEMCHARS) s"

text \<open>
  \<open>LOWER\<close> is \<open>^[\da-z]+$\<close>, used with \<open>match\<close>: one or more characters of the class up
  to the end of the string, where \<open>$\<close> also matches just before a newline that ends the
  string.
\<close>

definition LOWER_class :: "char \<Rightarrow> bool" where
  "LOWER_class c = (c \<in> set ''0123456789abcdefghijklmnopqrstuvwxyz'')"

definition LOWER_match :: "string \<Rightarrow> bool" where
  "LOWER_match s =
     (let body = (if s \<noteq> [] \<and> last s = CHR 0x0A then butlast s else s)
      in body \<noteq> [] \<and> list_all LOWER_class body)"

subsection \<open>Splitting at colons\<close>

text \<open>
  \<open>re.split('[:]', s, maxsplit)\<close>: the string is cut at each colon, from the left, until
  \<open>maxsplit\<close> cuts are made; \<open>maxsplit = 0\<close> is no limit. \<open>n\<close> counts the cuts made so
  far. The result is never empty.
\<close>

fun split_from :: "nat \<Rightarrow> nat \<Rightarrow> string \<Rightarrow> string list" where
  "split_from maxsplit n [] = [[]]"
| "split_from maxsplit n (c # cs) =
     (if c = CHR '':'' \<and> (maxsplit = 0 \<or> n < maxsplit)
      then [] # split_from maxsplit (Suc n) cs
      else (case split_from maxsplit n cs of
              [] \<Rightarrow> [[c]]
            | seg # segs \<Rightarrow> (c # seg) # segs))"

definition re_split_colon :: "string \<Rightarrow> nat \<Rightarrow> string list" where
  "re_split_colon s maxsplit = split_from maxsplit 0 s"

subsection \<open>The loop over the \<open>tag\<close> sub-elements\<close>

text \<open>
  \<open>element.iter(name)\<close>: the element itself and all elements below it, in document
  order, those whose tag is \<open>name\<close>.
\<close>

fun iter :: "string \<Rightarrow> element \<Rightarrow> element list" where
  "iter name (Element t a cs) =
     (if t = name then [Element t a cs] else []) @ concat (map (iter name) cs)"

text \<open>The inner loop over the segments of the key; it only ever clears \<open>key_ok\<close>.\<close>

fun key_ok_loop :: "string list \<Rightarrow> bool \<Rightarrow> bool" where
  "key_ok_loop [] key_ok = key_ok"
| "key_ok_loop (tag_k_split # rest) key_ok =
     key_ok_loop rest (if \<not> LOWER_match tag_k_split then False else key_ok)"

text \<open>
  Lines 209 to 223: whether a dictionary is built for the key \<open>tag_k\<close>, and with which
  \<open>tag_type\<close> and \<open>tag_key\<close>. The default type is the empty string; the parameter
  \<open>default_tag_type\<close> of \<open>shape_element\<close> is not read.
\<close>

definition classify_key :: "string \<Rightarrow> (string \<times> string) option" where
  "classify_key tag_k =
     (if \<not> PROBLEMCHARS_search tag_k then
        if key_ok_loop (re_split_colon tag_k 0) True then
          (case re_split_colon tag_k 1 of
             tag_type # tag_key # _ \<Rightarrow> Some (tag_type, tag_key)
           | _ \<Rightarrow> Some ('''', tag_k))
        else None
      else None)"

text \<open>
  One pass of the loop over \<open>element.iter('tag')\<close>. The dictionary literal reads
  \<open>element.attrib['id']\<close> before \<open>tag.attrib['v']\<close>, and both only for a key that is
  kept. The counter \<open>tag_count\<close> is written and never read, so it is left out.
\<close>

definition tag_body :: "element \<Rightarrow> element \<Rightarrow> tag_dict list \<Rightarrow> error + tag_dict list" where
  "tag_body element tg tags =
     (case attrib tg ''k'' of
        None \<Rightarrow> Inl (KeyError ''k'')
      | Some tag_k \<Rightarrow>
          (case classify_key tag_k of
             None \<Rightarrow> Inr tags
           | Some (tag_type, tag_key) \<Rightarrow>
               (case attrib element ''id'' of
                  None \<Rightarrow> Inl (KeyError ''id'')
                | Some element_id \<Rightarrow>
                    (case attrib tg ''v'' of
                       None \<Rightarrow> Inl (KeyError ''v'')
                     | Some tag_v \<Rightarrow>
                         Inr (tags @ [\<lparr>t_id = element_id, t_key = tag_key,
                                        t_value = tag_v, t_type = tag_type\<rparr>])))))"

fun tag_loop :: "element \<Rightarrow> element list \<Rightarrow> tag_dict list \<Rightarrow> error + tag_dict list" where
  "tag_loop element [] tags = Inr tags"
| "tag_loop element (tg # rest) tags =
     (case tag_body element tg tags of
        Inl err \<Rightarrow> Inl err
      | Inr tags' \<Rightarrow> tag_loop element rest tags')"

subsection \<open>The loop over the \<open>nd\<close> sub-elements\<close>

fun nd_loop :: "element \<Rightarrow> element list \<Rightarrow> nat \<Rightarrow> nd_dict list \<Rightarrow> error + nd_dict list" where
  "nd_loop element [] nd_pos way_nodes = Inr way_nodes"
| "nd_loop element (tg # rest) nd_pos way_nodes =
     (case attrib element ''id'' of
        None \<Rightarrow> Inl (KeyError ''id'')
      | Some element_id \<Rightarrow>
          (case attrib tg ''ref'' of
             None \<Rightarrow> Inl (KeyError ''ref'')
           | Some ref \<Rightarrow>
               nd_loop element rest (nd_pos + 1)
                 (way_nodes @ [\<lparr>nd_id = element_id, nd_node_id = ref,
                                  nd_position = nd_pos\<rparr>])))"

subsection \<open>Copying the top-level attributes\<close>

fun attr_loop :: "element \<Rightarrow> string list \<Rightarrow> (string \<rightharpoonup> string) \<Rightarrow> error + (string \<rightharpoonup> string)" where
  "attr_loop element [] attribs = Inr attribs"
| "attr_loop element (attr_key # rest) attribs =
     (case attrib element attr_key of
        None \<Rightarrow> Inl (KeyError attr_key)
      | Some v \<Rightarrow> attr_loop element rest (attribs(attr_key \<mapsto> v)))"

subsection \<open>\<open>shape_element\<close>\<close>

text \<open>
  Both loops run before the tag of the element is looked at. The parameter
  \<open>problem_chars\<close> is the compiled \<open>PROBLEMCHARS\<close> in every call of the program and is
  fixed to it here; \<open>default_tag_type\<close> is a parameter of the source that its body
  never uses.
\<close>

definition shape_element_with ::
    "string list \<Rightarrow> string list \<Rightarrow> string \<Rightarrow> element \<Rightarrow> error + shaped" where
  "shape_element_with node_attr_fields way_attr_fields default_tag_type element =
     (case tag_loop element (iter ''tag'' element) [] of
        Inl err \<Rightarrow> Inl err
      | Inr tags \<Rightarrow>
          (case nd_loop element (iter ''nd'' element) 0 [] of
             Inl err \<Rightarrow> Inl err
           | Inr way_nodes \<Rightarrow>
               if tag element = ''node'' then
                 (case attr_loop element node_attr_fields Map.empty of
                    Inl err \<Rightarrow> Inl err
                  | Inr node_attribs \<Rightarrow> Inr (NodeResult node_attribs tags))
               else if tag element = ''way'' then
                 (case attr_loop element way_attr_fields Map.empty of
                    Inl err \<Rightarrow> Inl err
                  | Inr way_attribs \<Rightarrow> Inr (WayResult way_attribs way_nodes tags))
               else Inr NoneResult))"

definition shape_element :: "element \<Rightarrow> error + shaped" where
  "shape_element = shape_element_with NODE_FIELDS WAY_FIELDS ''regular''"

subsection \<open>Concrete elements\<close>

text \<open>
  The node of the program's documentation,
  \<open>lat\<close>, \<open>lon\<close> and the other six attributes present, and elements built around it.
\<close>

definition node_attrs :: "string \<rightharpoonup> string" where
  "node_attrs =
     [''id'' \<mapsto> ''757860928'', ''user'' \<mapsto> ''uboot'', ''uid'' \<mapsto> ''26299'',
      ''version'' \<mapsto> ''2'', ''lat'' \<mapsto> ''41.9747374'', ''lon'' \<mapsto> ''-87.6920102'',
      ''timestamp'' \<mapsto> ''2010-07-22T16:16:51Z'', ''changeset'' \<mapsto> ''5288876'']"

definition node_amenity :: element where
  "node_amenity =
     Element ''node'' node_attrs
       [Element ''tag'' [''k'' \<mapsto> ''amenity'', ''v'' \<mapsto> ''fast_food''] []]"

definition tag_street_name :: element where
  "tag_street_name = Element ''tag'' [''k'' \<mapsto> ''addr:street name''] []"



definition node_no_uid :: element where
  "node_no_uid =
     Element ''node'' (node_attrs(''uid'' := None))
       [Element ''tag'' [''k'' \<mapsto> ''amenity'', ''v'' \<mapsto> ''fast_food''] []]"

definition node_tag_no_v :: element where
  "node_tag_no_v = Element ''node'' node_attrs [Element ''tag'' [''k'' \<mapsto> ''Name''] []]"

definition node_tag_no_k :: element where
  "node_tag_no_k = Element ''node'' node_attrs [Element ''tag'' [''v'' \<mapsto> ''fast_food''] []]"

definition node_kept_tag_no_v :: element where
  "node_kept_tag_no_v = Element ''node'' node_attrs [Element ''tag'' [''k'' \<mapsto> ''amenity''] []]"

definition node_nd_no_ref :: element where
  "node_nd_no_ref = Element ''node'' node_attrs [Element ''nd'' Map.empty []]"

definition node_nd_ref :: element where
  "node_nd_ref = Element ''node'' node_attrs [Element ''nd'' [''ref'' \<mapsto> ''2199822281''] []]"

definition relation_tag_no_k :: element where
  "relation_tag_no_k = Element ''relation'' [''id'' \<mapsto> ''1''] [Element ''tag'' Map.empty []]"

definition relation_ok :: element where
  "relation_ok =
     Element ''relation'' [''id'' \<mapsto> ''1'']
       [Element ''member'' [''type'' \<mapsto> ''way'', ''ref'' \<mapsto> ''209809850''] [],
        Element ''nd'' [''ref'' \<mapsto> ''2199822281''] [],
        Element ''tag'' [''k'' \<mapsto> ''type'', ''v'' \<mapsto> ''route''] []]"

definition way_attrs :: "string \<rightharpoonup> string" where
  "way_attrs =
     [''id'' \<mapsto> ''209809850'', ''user'' \<mapsto> ''chicago-buildings'', ''uid'' \<mapsto> ''674454'',
      ''version'' \<mapsto> ''1'', ''timestamp'' \<mapsto> ''2013-03-13T15:58:04Z'',
      ''changeset'' \<mapsto> ''15353317'']"

definition way_ring :: element where
  "way_ring =
     Element ''way'' way_attrs
       [Element ''nd'' [''ref'' \<mapsto> ''2199822281''] [],
        Element ''nd'' [''ref'' \<mapsto> ''2199822390''] [],
        Element ''nd'' [''ref'' \<mapsto> ''2199822281''] [],
        Element ''tag'' [''k'' \<mapsto> ''building'', ''v'' \<mapsto> ''yes''] []]"

section \<open>Facts about the pieces\<close>

subsection \<open>Splitting and matching\<close>



lemma split_from_no_colon: "CHR '':'' \<notin> set s \<Longrightarrow> split_from m n s = [s]"
  by (induction s arbitrary: n) auto






subsection \<open>One tag\<close>


lemma classify_key_no_colon:
  assumes "CHR '':'' \<notin> set tag_k" and "classify_key tag_k \<noteq> None"
  shows "classify_key tag_k = Some ('''', tag_k)"
proof -
  have "re_split_colon tag_k 1 = [tag_k]"
    using assms(1) by (simp add: re_split_colon_def split_from_no_colon)
  with assms(2) show ?thesis
    by (simp add: classify_key_def split: if_splits)
qed


lemma tag_body_no_k:
  "attrib tg ''k'' = None \<Longrightarrow> tag_body e tg acc = Inl (KeyError ''k'')"
  by (simp add: tag_body_def)

lemma tag_body_rejected:
  "attrib tg ''k'' = Some tag_k \<Longrightarrow> classify_key tag_k = None \<Longrightarrow> tag_body e tg acc = Inr acc"
  by (simp add: tag_body_def)


lemma tag_body_no_v:
  assumes "attrib tg ''k'' = Some tag_k" and "classify_key tag_k \<noteq> None"
    and "attrib tg ''v'' = None"
  shows "tag_body e tg acc = Inl (KeyError ''id'') \<or> tag_body e tg acc = Inl (KeyError ''v'')"
proof -
  obtain ty ky where "classify_key tag_k = Some (ty, ky)"
    using assms(2) by (cases "classify_key tag_k") auto
  with assms(1,3) show ?thesis
    by (cases "attrib e ''id''") (simp_all add: tag_body_def)
qed

lemma tag_body_cases:
  "tag_body e tg acc = Inl (KeyError ''k'') \<or> tag_body e tg acc = Inl (KeyError ''id'') \<or>
   tag_body e tg acc = Inl (KeyError ''v'') \<or> tag_body e tg acc = Inr acc \<or>
   (\<exists>ty ky v. attrib e ''id'' \<noteq> None \<and>
      tag_body e tg acc =
        Inr (acc @ [\<lparr>t_id = the (attrib e ''id''), t_key = ky, t_value = v, t_type = ty\<rparr>]))"
proof (cases "attrib tg ''k''")
  case None
  then show ?thesis by (simp add: tag_body_def)
next
  case k: (Some tag_k)
  show ?thesis
  proof (cases "classify_key tag_k")
    case None
    with k show ?thesis by (simp add: tag_body_def)
  next
    case c: (Some p)
    obtain ty ky where p: "p = (ty, ky)" by (cases p)
    show ?thesis
    proof (cases "attrib e ''id''")
      case None
      with k c p show ?thesis by (simp add: tag_body_def)
    next
      case i: (Some element_id)
      show ?thesis
      proof (cases "attrib tg ''v''")
        case None
        with k c p i show ?thesis by (simp add: tag_body_def)
      next
        case (Some tag_v)
        with k c p i show ?thesis by (simp add: tag_body_def)
      qed
    qed
  qed
qed

lemma tag_body_succeeds:
  assumes "attrib e ''id'' \<noteq> None" and "attrib tg ''k'' \<noteq> None" and "attrib tg ''v'' \<noteq> None"
  shows "\<exists>tags'. tag_body e tg tags = Inr tags'"
  using assms tag_body_cases [of e tg tags]
  by (auto simp: tag_body_def split: option.splits)

subsection \<open>The loops\<close>

lemma tag_loop_fails:
  assumes "tg \<in> set ts" and "\<And>acc. \<exists>key. tag_body e tg acc = Inl (KeyError key)"
  shows "\<exists>key. tag_loop e ts tags = Inl (KeyError key)"
  using assms(1)
proof (induction ts arbitrary: tags)
  case Nil
  then show ?case by simp
next
  case (Cons t ts)
  show ?case
  proof (cases "tag_body e t tags")
    case (Inl err)
    then show ?thesis by (cases err) simp
  next
    case (Inr tags')
    have "tg \<noteq> t" using assms(2) [of tags] Inr by auto
    with Cons.prems have "tg \<in> set ts" by simp
    from Cons.IH [OF this, of tags'] Inr show ?thesis by simp
  qed
qed

lemma tag_loop_succeeds:
  assumes "attrib e ''id'' \<noteq> None"
    and "\<forall>tg\<in>set ts. attrib tg ''k'' \<noteq> None \<and> attrib tg ''v'' \<noteq> None"
  shows "\<exists>tags'. tag_loop e ts tags = Inr tags'"
  using assms(2)
proof (induction ts arbitrary: tags)
  case Nil
  then show ?case by simp
next
  case (Cons t ts)
  then obtain tags' where "tag_body e t tags = Inr tags'"
    using tag_body_succeeds [OF assms(1), of t tags] by auto
  with Cons show ?case by simp
qed

lemma tag_body_ids:
  assumes "tag_body e tg tags = Inr tags'"
    and "\<forall>t\<in>set tags. attrib e ''id'' = Some (t_id t)"
  shows "\<forall>t\<in>set tags'. attrib e ''id'' = Some (t_id t)"
  using tag_body_cases [of e tg tags] assms by auto

lemma tag_loop_ids:
  "tag_loop e ts tags = Inr tags' \<Longrightarrow> \<forall>t\<in>set tags. attrib e ''id'' = Some (t_id t) \<Longrightarrow>
   \<forall>t\<in>set tags'. attrib e ''id'' = Some (t_id t)"
proof (induction ts arbitrary: tags)
  case Nil
  then show ?case by simp
next
  case (Cons t ts)
  show ?case
  proof (cases "tag_body e t tags")
    case (Inl err)
    with Cons.prems(1) show ?thesis by simp
  next
    case (Inr tags1)
    with Cons.prems(1) have "tag_loop e ts tags1 = Inr tags'" by simp
    moreover have "\<forall>t\<in>set tags1. attrib e ''id'' = Some (t_id t)"
      using tag_body_ids [OF Inr Cons.prems(2)] .
    ultimately show ?thesis by (rule Cons.IH)
  qed
qed

lemma tag_loop_errors:
  "tag_loop e ts tags = Inl err \<Longrightarrow>
   err = KeyError ''k'' \<or> err = KeyError ''id'' \<or> err = KeyError ''v''"
proof (induction ts arbitrary: tags)
  case Nil
  then show ?case by simp
next
  case (Cons t ts)
  show ?case
  proof (cases "tag_body e t tags")
    case (Inl err')
    with Cons.prems have "tag_body e t tags = Inl err" by simp
    with tag_body_cases [of e t tags] show ?thesis by auto
  next
    case (Inr tags1)
    with Cons.prems have "tag_loop e ts tags1 = Inl err" by simp
    then show ?thesis by (rule Cons.IH)
  qed
qed

lemma nd_loop_refs:
  "attrib e ''id'' = Some i \<Longrightarrow> map (\<lambda>n. attrib n ''ref'') ns = map Some rs \<Longrightarrow>
   nd_loop e ns p acc =
     Inr (acc @ map (\<lambda>(j, r). \<lparr>nd_id = i, nd_node_id = r, nd_position = j\<rparr>) (enumerate p rs))"
proof (induction ns arbitrary: rs p acc)
  case Nil
  then show ?case by simp
next
  case (Cons n ns)
  then obtain r rs' where rs: "rs = r # rs'" by (cases rs) auto
  with Cons.prems have "attrib n ''ref'' = Some r"
    and "map (\<lambda>n. attrib n ''ref'') ns = map Some rs'" by auto
  with Cons.IH [OF Cons.prems(1), of rs' "Suc p"] Cons.prems(1) rs show ?case by simp
qed

lemma nd_loop_fails:
  "n \<in> set ns \<Longrightarrow> attrib n ''ref'' = None \<Longrightarrow>
   nd_loop e ns p acc = Inl (KeyError ''id'') \<or> nd_loop e ns p acc = Inl (KeyError ''ref'')"
proof (induction ns arbitrary: p acc)
  case Nil
  then show ?case by simp
next
  case (Cons m ns)
  show ?case
  proof (cases "attrib e ''id''")
    case None
    then show ?thesis by simp
  next
    case i: (Some element_id)
    show ?thesis
    proof (cases "attrib m ''ref''")
      case None
      with i show ?thesis by simp
    next
      case (Some r)
      with Cons.prems have "n \<in> set ns" by auto
      from Cons.IH [OF this Cons.prems(2)] i Some show ?thesis by simp
    qed
  qed
qed

lemma nd_loop_fails_ref:
  assumes "n \<in> set ns" and "attrib n ''ref'' = None" and "attrib e ''id'' \<noteq> None"
  shows "nd_loop e ns p acc = Inl (KeyError ''ref'')"
proof -
  have "nd_loop e ns p acc \<noteq> Inl (KeyError ''id'')"
    using assms(3) by (induction ns arbitrary: p acc) (auto split: option.splits)
  with nd_loop_fails [OF assms(1,2), of e p acc] show ?thesis by simp
qed

lemma nd_loop_errors:
  "nd_loop e ns p acc = Inl err \<Longrightarrow> err = KeyError ''id'' \<or> err = KeyError ''ref''"
  by (induction ns arbitrary: p acc) (auto split: option.splits)

lemma nd_loop_succeeds:
  "attrib e ''id'' \<noteq> None \<Longrightarrow> \<forall>n\<in>set ns. attrib n ''ref'' \<noteq> None \<Longrightarrow>
   \<exists>way_nodes. nd_loop e ns p acc = Inr way_nodes"
  by (induction ns arbitrary: p acc) (auto split: option.splits)

lemma nd_loop_ids:
  "nd_loop e ns p acc = Inr way_nodes \<Longrightarrow> \<forall>n\<in>set acc. attrib e ''id'' = Some (nd_id n) \<Longrightarrow>
   \<forall>n\<in>set way_nodes. attrib e ''id'' = Some (nd_id n)"
proof (induction ns arbitrary: p acc)
  case Nil
  then show ?case by simp
next
  case (Cons m ns)
  from Cons.prems(1) obtain element_id r where i: "attrib e ''id'' = Some element_id"
    and r: "attrib m ''ref'' = Some r"
    by (auto split: option.splits)
  let ?acc = "acc @ [\<lparr>nd_id = element_id, nd_node_id = r, nd_position = p\<rparr>]"
  from Cons.prems(1) i r have "nd_loop e ns (p + 1) ?acc = Inr way_nodes" by simp
  moreover have "\<forall>n\<in>set ?acc. attrib e ''id'' = Some (nd_id n)"
    using Cons.prems(2) i by simp
  ultimately show ?case by (rule Cons.IH)
qed

lemma attr_loop_fails:
  "k \<in> set ks \<Longrightarrow> attrib e k = None \<Longrightarrow> \<exists>key. attr_loop e ks m = Inl (KeyError key)"
  by (induction ks arbitrary: m) (auto split: option.splits)

lemma attr_loop_succeeds:
  "\<forall>k\<in>set ks. attrib e k \<noteq> None \<Longrightarrow> \<exists>m'. attr_loop e ks m = Inr m'"
  by (induction ks arbitrary: m) (auto split: option.splits)

lemma self_in_iter: "tag c = name \<Longrightarrow> c \<in> set (iter name c)"
  by (cases c) simp

lemma child_in_iter:
  assumes "c \<in> set (children e)" and "tag c = name"
  shows "c \<in> set (iter name e)"
proof (cases e)
  case (Element t a cs)
  with assms(1) have "c \<in> set cs" by simp
  with self_in_iter [OF assms(2)] have "\<exists>x\<in>set cs. c \<in> set (iter name x)" by blast
  with Element show ?thesis by simp
qed

lemma shape_element_unfold:
  "shape_element e =
     (case tag_loop e (iter ''tag'' e) [] of
        Inl err \<Rightarrow> Inl err
      | Inr tags \<Rightarrow>
          (case nd_loop e (iter ''nd'' e) 0 [] of
             Inl err \<Rightarrow> Inl err
           | Inr way_nodes \<Rightarrow>
               if tag e = ''node'' then
                 (case attr_loop e NODE_FIELDS Map.empty of
                    Inl err \<Rightarrow> Inl err
                  | Inr node_attribs \<Rightarrow> Inr (NodeResult node_attribs tags))
               else if tag e = ''way'' then
                 (case attr_loop e WAY_FIELDS Map.empty of
                    Inl err \<Rightarrow> Inl err
                  | Inr way_attribs \<Rightarrow> Inr (WayResult way_attribs way_nodes tags))
               else Inr NoneResult))"
  by (simp add: shape_element_def shape_element_with_def)

lemma shape_element_tags_fail:
  "tag_loop e (iter ''tag'' e) [] = Inl err \<Longrightarrow> shape_element e = Inl err"
  by (simp add: shape_element_unfold)

lemma shape_element_nd_fail:
  "tag_loop e (iter ''tag'' e) [] = Inr tags \<Longrightarrow> nd_loop e (iter ''nd'' e) 0 [] = Inl err \<Longrightarrow>
   shape_element e = Inl err"
  by (simp add: shape_element_unfold)

lemma shape_element_node:
  "tag_loop e (iter ''tag'' e) [] = Inr tags \<Longrightarrow> nd_loop e (iter ''nd'' e) 0 [] = Inr way_nodes \<Longrightarrow>
   tag e = ''node'' \<Longrightarrow>
   shape_element e =
     (case attr_loop e NODE_FIELDS Map.empty of
        Inl err \<Rightarrow> Inl err
      | Inr node_attribs \<Rightarrow> Inr (NodeResult node_attribs tags))"
  by (simp add: shape_element_unfold)

lemma shape_element_way:
  "tag_loop e (iter ''tag'' e) [] = Inr tags \<Longrightarrow> nd_loop e (iter ''nd'' e) 0 [] = Inr way_nodes \<Longrightarrow>
   tag e = ''way'' \<Longrightarrow>
   shape_element e =
     (case attr_loop e WAY_FIELDS Map.empty of
        Inl err \<Rightarrow> Inl err
      | Inr way_attribs \<Rightarrow> Inr (WayResult way_attribs way_nodes tags))"
  by (simp add: shape_element_unfold)

lemma shape_element_other:
  "tag_loop e (iter ''tag'' e) [] = Inr tags \<Longrightarrow> nd_loop e (iter ''nd'' e) 0 [] = Inr way_nodes \<Longrightarrow>
   tag e \<noteq> ''node'' \<Longrightarrow> tag e \<noteq> ''way'' \<Longrightarrow> shape_element e = Inr NoneResult"
  by (simp add: shape_element_unfold)

lemma error_is_KeyError: "\<exists>key. (x :: error + 'a) = Inl (KeyError key)" if "x = Inl err"
  using that by (cases err) simp

lemma map_enumerate_upt:
  "map (\<lambda>(j, r). f j r) (enumerate 0 rs) = map (\<lambda>j. f j (rs ! j)) [0..<length rs]"
  by (rule nth_equalityI) (simp_all add: nth_enumerate_eq)

subsection \<open>Evaluation\<close>

lemmas eval_defs =
  shape_element_def shape_element_with_def tag_body_def classify_key_def
  PROBLEMCHARS_search_def PROBLEMCHARS_def re_split_colon_def LOWER_match_def LOWER_class_def
  NODE_FIELDS_def WAY_FIELDS_def

section \<open>The claims\<close>

text \<open>
  Claim C1: a kept key without a colon gives a record whose type is \<open>regular\<close> and
  whose key is the raw key. The key is copied unchanged, but the type the code writes is
  the empty string: \<open>tag_type\<close> starts as \<open>""\<close> and \<open>default_tag_type\<close> is never
  read. On the documentation's node with the tag \<open>amenity = fast_food\<close>:
\<close>

theorem amenity_type_is_empty_string:
  "shape_element node_amenity =
     Inr (NodeResult
       [''id'' \<mapsto> ''757860928'', ''lat'' \<mapsto> ''41.9747374'', ''lon'' \<mapsto> ''-87.6920102'',
        ''user'' \<mapsto> ''uboot'', ''uid'' \<mapsto> ''26299'', ''version'' \<mapsto> ''2'',
        ''changeset'' \<mapsto> ''5288876'', ''timestamp'' \<mapsto> ''2010-07-22T16:16:51Z'']
       [\<lparr>t_id = ''757860928'', t_key = ''amenity'', t_value = ''fast_food'', t_type = ''''\<rparr>])"
  by (simp add: node_amenity_def node_attrs_def eval_defs)

text \<open>
  Claim C2, as stated, fails: \<open>v\<close> is read only after the key is kept, so a tag without
  \<open>v\<close> whose key is rejected is skipped like any rejected tag and the element is shaped.
  A node with the single tag \<open>k = Name\<close> and no \<open>v\<close>:
\<close>

theorem rejected_tag_without_v_is_shaped:
  "tag node_tag_no_v = ''node''
   \<and> children node_tag_no_v = [Element ''tag'' [''k'' \<mapsto> ''Name''] []]
   \<and> attrib (Element ''tag'' [''k'' \<mapsto> ''Name''] []) ''v'' = None
   \<and> shape_element node_tag_no_v =
       Inr (NodeResult
         [''id'' \<mapsto> ''757860928'', ''lat'' \<mapsto> ''41.9747374'', ''lon'' \<mapsto> ''-87.6920102'',
          ''user'' \<mapsto> ''uboot'', ''uid'' \<mapsto> ''26299'', ''version'' \<mapsto> ''2'',
          ''changeset'' \<mapsto> ''5288876'', ''timestamp'' \<mapsto> ''2010-07-22T16:16:51Z'']
         [])"
  by (simp add: node_tag_no_v_def node_attrs_def eval_defs)

text \<open>
  Claim C2, amended: shaping an element fails as a whole, with a \<open>KeyError\<close> and nothing
  returned, when a \<open>tag\<close> below it lacks \<open>k\<close>, when a \<open>tag\<close> below it whose key is kept
  lacks \<open>v\<close>, or when an \<open>nd\<close> below it lacks \<open>ref\<close>. This holds for every element, so
  for every node and way; the children of an element are among the elements below it
  (\<open>child_in_iter\<close>).
\<close>

theorem malformed_sub_element_fails:
  assumes "tg \<in> set (iter ''tag'' element) \<and> attrib tg ''k'' = None
         \<or> tg \<in> set (iter ''tag'' element) \<and> attrib tg ''v'' = None \<and>
             (\<exists>tag_k. attrib tg ''k'' = Some tag_k \<and> classify_key tag_k \<noteq> None)
         \<or> tg \<in> set (iter ''nd'' element) \<and> attrib tg ''ref'' = None"
  shows "\<exists>key. shape_element element = Inl (KeyError key)"
proof -
  consider (k) "tg \<in> set (iter ''tag'' element)" "attrib tg ''k'' = None"
    | (v) tag_k where "tg \<in> set (iter ''tag'' element)" "attrib tg ''v'' = None"
        "attrib tg ''k'' = Some tag_k" "classify_key tag_k \<noteq> None"
    | (ref) "tg \<in> set (iter ''nd'' element)" "attrib tg ''ref'' = None"
    using assms by auto
  then show ?thesis
  proof cases
    case k
    have "\<exists>key. tag_body element tg acc = Inl (KeyError key)" for acc
      using tag_body_no_k [OF k(2)] by blast
    from tag_loop_fails [OF k(1) this]
    obtain key where "tag_loop element (iter ''tag'' element) [] = Inl (KeyError key)" by blast
    then show ?thesis by (blast dest: shape_element_tags_fail)
  next
    case v
    have "\<exists>key. tag_body element tg acc = Inl (KeyError key)" for acc
      using tag_body_no_v [OF v(3) v(4) v(2), of element acc] by blast
    from tag_loop_fails [OF v(1) this]
    obtain key where "tag_loop element (iter ''tag'' element) [] = Inl (KeyError key)" by blast
    then show ?thesis by (blast dest: shape_element_tags_fail)
  next
    case ref
    show ?thesis
    proof (cases "tag_loop element (iter ''tag'' element) []")
      case (Inl err)
      then have "shape_element element = Inl err" by (rule shape_element_tags_fail)
      then show ?thesis by (rule error_is_KeyError)
    next
      case (Inr tags)
      from nd_loop_fails [OF ref, of element 0 "[]"]
      obtain err where "nd_loop element (iter ''nd'' element) 0 [] = Inl err" by blast
      with Inr have "shape_element element = Inl err" by (rule shape_element_nd_fail)
      then show ?thesis by (rule error_is_KeyError)
    qed
  qed
qed

theorem malformed_sub_element_fails_witness:
  "iter ''tag'' node_tag_no_k = [Element ''tag'' [''v'' \<mapsto> ''fast_food''] []]
   \<and> attrib (Element ''tag'' [''v'' \<mapsto> ''fast_food''] []) ''k'' = None
   \<and> shape_element node_tag_no_k = Inl (KeyError ''k'')
   \<and> iter ''tag'' node_kept_tag_no_v = [Element ''tag'' [''k'' \<mapsto> ''amenity''] []]
   \<and> attrib (Element ''tag'' [''k'' \<mapsto> ''amenity''] []) ''v'' = None
   \<and> classify_key ''amenity'' = Some ('''', ''amenity'')
   \<and> shape_element node_kept_tag_no_v = Inl (KeyError ''v'')
   \<and> iter ''nd'' node_nd_no_ref = [Element ''nd'' Map.empty []]
   \<and> shape_element node_nd_no_ref = Inl (KeyError ''ref'')"
  using malformed_sub_element_fails
      [of "Element ''tag'' [''v'' \<mapsto> ''fast_food''] []" node_tag_no_k]
    malformed_sub_element_fails
      [of "Element ''tag'' [''k'' \<mapsto> ''amenity''] []" node_kept_tag_no_v]
    malformed_sub_element_fails [of "Element ''nd'' Map.empty []" node_nd_no_ref]
  by (simp add: node_tag_no_k_def node_kept_tag_no_v_def node_nd_no_ref_def node_attrs_def
      eval_defs)

text \<open>
  Claim C3, as stated, fails: both scans run before the tag of the element is looked at,
  so an element that is neither a node nor a way raises \<open>KeyError\<close> when a \<open>tag\<close> below
  it has no \<open>k\<close>.
\<close>

theorem relation_with_bad_tag_raises:
  "tag relation_tag_no_k \<noteq> ''node'' \<and> tag relation_tag_no_k \<noteq> ''way''
   \<and> shape_element relation_tag_no_k = Inl (KeyError ''k'')"
  by (simp add: relation_tag_no_k_def eval_defs)

text \<open>
  Claim C3, amended: for an element that is neither a node nor a way, shaping returns
  \<open>None\<close> or raises the \<open>KeyError\<close> of one of the two scans (\<open>k\<close>, \<open>id\<close>, \<open>v\<close> or
  \<open>ref\<close>); it returns \<open>None\<close> whenever the element has an \<open>id\<close>, every \<open>tag\<close> below it
  has \<open>k\<close> and \<open>v\<close>, and every \<open>nd\<close> below it has \<open>ref\<close>, whatever its other
  attributes and sub-elements are.
\<close>

theorem other_kind_returns_None:
  assumes "tag element \<noteq> ''node''" and "tag element \<noteq> ''way''"
  shows "(shape_element element = Inr NoneResult
            \<or> shape_element element = Inl (KeyError ''k'')
            \<or> shape_element element = Inl (KeyError ''id'')
            \<or> shape_element element = Inl (KeyError ''v'')
            \<or> shape_element element = Inl (KeyError ''ref''))
       \<and> (attrib element ''id'' \<noteq> None
            \<and> (\<forall>tg\<in>set (iter ''tag'' element). attrib tg ''k'' \<noteq> None \<and> attrib tg ''v'' \<noteq> None)
            \<and> (\<forall>n\<in>set (iter ''nd'' element). attrib n ''ref'' \<noteq> None)
          \<longrightarrow> shape_element element = Inr NoneResult)"
proof (rule conjI)
  show "shape_element element = Inr NoneResult
      \<or> shape_element element = Inl (KeyError ''k'')
      \<or> shape_element element = Inl (KeyError ''id'')
      \<or> shape_element element = Inl (KeyError ''v'')
      \<or> shape_element element = Inl (KeyError ''ref'')"
  proof (cases "tag_loop element (iter ''tag'' element) []")
    case (Inl err)
    from shape_element_tags_fail [OF Inl] tag_loop_errors [OF Inl] show ?thesis by blast
  next
    case tags: (Inr tags)
    show ?thesis
    proof (cases "nd_loop element (iter ''nd'' element) 0 []")
      case (Inl err)
      from shape_element_nd_fail [OF tags Inl] nd_loop_errors [OF Inl] show ?thesis by blast
    next
      case (Inr way_nodes)
      from shape_element_other [OF tags Inr assms] show ?thesis by simp
    qed
  qed
next
  show "attrib element ''id'' \<noteq> None
      \<and> (\<forall>tg\<in>set (iter ''tag'' element). attrib tg ''k'' \<noteq> None \<and> attrib tg ''v'' \<noteq> None)
      \<and> (\<forall>n\<in>set (iter ''nd'' element). attrib n ''ref'' \<noteq> None)
    \<longrightarrow> shape_element element = Inr NoneResult"
  proof (intro impI, elim conjE)
    assume i: "attrib element ''id'' \<noteq> None"
      and t: "\<forall>tg\<in>set (iter ''tag'' element). attrib tg ''k'' \<noteq> None \<and> attrib tg ''v'' \<noteq> None"
      and n: "\<forall>n\<in>set (iter ''nd'' element). attrib n ''ref'' \<noteq> None"
    from tag_loop_succeeds [OF i t]
    obtain tags where tags: "tag_loop element (iter ''tag'' element) [] = Inr tags" by blast
    from nd_loop_succeeds [OF i n]
    obtain way_nodes where nds: "nd_loop element (iter ''nd'' element) 0 [] = Inr way_nodes"
      by blast
    from shape_element_other [OF tags nds assms] show "shape_element element = Inr NoneResult" .
  qed
qed

theorem other_kind_returns_None_witness:
  "tag relation_ok \<noteq> ''node'' \<and> tag relation_ok \<noteq> ''way''
   \<and> attrib relation_ok ''id'' = Some ''1''
   \<and> iter ''tag'' relation_ok = [Element ''tag'' [''k'' \<mapsto> ''type'', ''v'' \<mapsto> ''route''] []]
   \<and> iter ''nd'' relation_ok = [Element ''nd'' [''ref'' \<mapsto> ''2199822281''] []]
   \<and> shape_element relation_ok = Inr NoneResult"
  using other_kind_returns_None [of relation_ok]
  by (simp add: relation_ok_def eval_defs)

text \<open>
  Claim C4: for a way whose \<open>nd\<close> sub-elements, in document order, carry the refs
  \<open>rs = [r0, ..., rN-1]\<close>, a successful shaping returns exactly \<open>N\<close> way-node records,
  the one at index \<open>j\<close> with \<open>position = j\<close> and \<open>node_id = rs ! j\<close>, equal refs
  included; and the shaping does succeed when the way has its six attributes and every
  \<open>tag\<close> below it has \<open>k\<close> and \<open>v\<close>.
\<close>

theorem way_nodes_positions:
  assumes "tag element = ''way''" and "attrib element ''id'' = Some element_id"
    and "map (\<lambda>n. attrib n ''ref'') (iter ''nd'' element) = map Some rs"
  shows "(\<forall>r. shape_element element = Inr r \<longrightarrow>
            (\<exists>way_attribs tags.
               r = WayResult way_attribs
                     (map (\<lambda>j. \<lparr>nd_id = element_id, nd_node_id = rs ! j, nd_position = j\<rparr>)
                        [0..<length rs])
                     tags))
       \<and> ((\<forall>k\<in>set [''user'', ''uid'', ''version'', ''timestamp'', ''changeset''].
               attrib element k \<noteq> None)
            \<and> (\<forall>tg\<in>set (iter ''tag'' element). attrib tg ''k'' \<noteq> None \<and> attrib tg ''v'' \<noteq> None)
          \<longrightarrow> (\<exists>r. shape_element element = Inr r))"
proof -
  let ?nodes = "map (\<lambda>j. \<lparr>nd_id = element_id, nd_node_id = rs ! j, nd_position = j\<rparr>)
                  [0..<length rs]"
  have "nd_loop element (iter ''nd'' element) 0 [] =
      Inr ([] @ map (\<lambda>(j, r). \<lparr>nd_id = element_id, nd_node_id = r, nd_position = j\<rparr>)
                  (enumerate 0 rs))"
    using assms(2,3) by (rule nd_loop_refs)
  also have "map (\<lambda>(j, r). \<lparr>nd_id = element_id, nd_node_id = r, nd_position = j\<rparr>)
      (enumerate 0 rs) = ?nodes"
    by (rule map_enumerate_upt)
  finally have nds: "nd_loop element (iter ''nd'' element) 0 [] = Inr ?nodes" by simp
  have first: "\<exists>way_attribs tags. r = WayResult way_attribs ?nodes tags"
    if r: "shape_element element = Inr r" for r
  proof (cases "tag_loop element (iter ''tag'' element) []")
    case (Inl err)
    with r show ?thesis by (simp add: shape_element_tags_fail)
  next
    case (Inr tags)
    from shape_element_way [OF Inr nds assms(1)] r show ?thesis
      by (cases "attr_loop element WAY_FIELDS Map.empty") auto
  qed
  have second: "\<exists>r. shape_element element = Inr r"
    if a: "\<forall>k\<in>set [''user'', ''uid'', ''version'', ''timestamp'', ''changeset''].
             attrib element k \<noteq> None"
      and t: "\<forall>tg\<in>set (iter ''tag'' element).
             attrib tg ''k'' \<noteq> None \<and> attrib tg ''v'' \<noteq> None"
  proof -
    have i: "attrib element ''id'' \<noteq> None" using assms(2) by simp
    from tag_loop_succeeds [OF i t]
    obtain tags where tags: "tag_loop element (iter ''tag'' element) [] = Inr tags" by blast
    have "\<forall>k\<in>set WAY_FIELDS. attrib element k \<noteq> None"
      using a i by (simp add: WAY_FIELDS_def)
    from attr_loop_succeeds [OF this]
    obtain way_attribs where "attr_loop element WAY_FIELDS Map.empty = Inr way_attribs"
      by blast
    with shape_element_way [OF tags nds assms(1)] show ?thesis by simp
  qed
  from first second show ?thesis by blast
qed

theorem way_nodes_positions_witness:
  "tag way_ring = ''way'' \<and> attrib way_ring ''id'' = Some ''209809850''
   \<and> map (\<lambda>n. attrib n ''ref'') (iter ''nd'' way_ring) =
       map Some [''2199822281'', ''2199822390'', ''2199822281'']
   \<and> shape_element way_ring =
       Inr (WayResult
         [''id'' \<mapsto> ''209809850'', ''user'' \<mapsto> ''chicago-buildings'', ''uid'' \<mapsto> ''674454'',
          ''version'' \<mapsto> ''1'', ''changeset'' \<mapsto> ''15353317'',
          ''timestamp'' \<mapsto> ''2013-03-13T15:58:04Z'']
         [\<lparr>nd_id = ''209809850'', nd_node_id = ''2199822281'', nd_position = 0\<rparr>,
          \<lparr>nd_id = ''209809850'', nd_node_id = ''2199822390'', nd_position = 1\<rparr>,
          \<lparr>nd_id = ''209809850'', nd_node_id = ''2199822281'', nd_position = 2\<rparr>]
         [\<lparr>t_id = ''209809850'', t_key = ''building'', t_value = ''yes'', t_type = ''''\<rparr>])"
  using way_nodes_positions
    [of way_ring "''209809850''" "[''2199822281'', ''2199822390'', ''2199822281'']"]
  by (simp add: way_ring_def way_attrs_def eval_defs)

text \<open>
  Claim C5: a key in which some character is one of
  \<open>= + / & < > ; ' " ? % # $ @ , .\<close> space, tab, newline, carriage return is rejected, and
  the pass of the loop leaves \<open>tags\<close> as it was and raises nothing (whether or not the
  tag has a \<open>v\<close>).
\<close>

theorem problem_key_is_skipped:
  assumes "attrib tg ''k'' = Some tag_k"
    and "\<exists>c\<in>set tag_k. c \<in> {CHR ''='', CHR ''+'', CHR ''/'', CHR ''&'', CHR ''<'', CHR ''>'',
           CHR '';'', CHR 0x27, CHR 0x22, CHR ''?'', CHR ''%'', CHR ''#'', CHR ''$'', CHR ''@'',
           CHR '','', CHR ''.'', CHR '' '', CHR 0x09, CHR 0x0A, CHR 0x0D}"
  shows "classify_key tag_k = None \<and> tag_body element tg tags = Inr tags"
proof -
  from assms(2) have "PROBLEMCHARS_search tag_k"
    unfolding PROBLEMCHARS_search_def PROBLEMCHARS_def list_ex_iff by auto
  then have "classify_key tag_k = None" by (simp add: classify_key_def)
  with assms(1) show ?thesis by (simp add: tag_body_rejected)
qed

theorem problem_key_is_skipped_witness:
  "attrib tag_street_name ''k'' = Some ''addr:street name''
   \<and> classify_key ''addr:street name'' = None
   \<and> tag_body node_amenity tag_street_name [] = Inr []"
  using problem_key_is_skipped [of tag_street_name "''addr:street name''" node_amenity "[]"]
  by (simp add: tag_street_name_def)





text \<open>
  Claim C8: a node that lacks one of \<open>id\<close>, \<open>user\<close>, \<open>uid\<close>, \<open>version\<close>, \<open>lat\<close>,
  \<open>lon\<close>, \<open>timestamp\<close>, \<open>changeset\<close>, and a way that lacks one of \<open>id\<close>, \<open>user\<close>,
  \<open>uid\<close>, \<open>version\<close>, \<open>timestamp\<close>, \<open>changeset\<close>, is not shaped: a \<open>KeyError\<close> is
  raised, so no dictionary, no record and no tag record is returned for the element.
\<close>

theorem missing_required_attribute_fails:
  assumes "tag element = ''node'' \<and>
             k \<in> set [''id'', ''user'', ''uid'', ''version'', ''lat'', ''lon'', ''timestamp'',
                       ''changeset'']
           \<or> tag element = ''way'' \<and>
             k \<in> set [''id'', ''user'', ''uid'', ''version'', ''timestamp'', ''changeset'']"
    and "attrib element k = None"
  shows "\<exists>key. shape_element element = Inl (KeyError key)"
proof (cases "tag_loop element (iter ''tag'' element) []")
  case (Inl err)
  then show ?thesis by (auto dest: shape_element_tags_fail intro: error_is_KeyError)
next
  case tags: (Inr tags)
  show ?thesis
  proof (cases "nd_loop element (iter ''nd'' element) 0 []")
    case (Inl err)
    with tags show ?thesis by (auto dest: shape_element_nd_fail intro: error_is_KeyError)
  next
    case nds: (Inr way_nodes)
    from assms(1) show ?thesis
    proof
      assume a: "tag element = ''node'' \<and>
        k \<in> set [''id'', ''user'', ''uid'', ''version'', ''lat'', ''lon'', ''timestamp'',
                  ''changeset'']"
      then have "k \<in> set NODE_FIELDS" by (auto simp: NODE_FIELDS_def)
      from attr_loop_fails [OF this assms(2), of Map.empty]
      obtain key where "attr_loop element NODE_FIELDS Map.empty = Inl (KeyError key)" ..
      with shape_element_node [OF tags nds] a show ?thesis by simp
    next
      assume a: "tag element = ''way'' \<and>
        k \<in> set [''id'', ''user'', ''uid'', ''version'', ''timestamp'', ''changeset'']"
      then have "k \<in> set WAY_FIELDS" by (auto simp: WAY_FIELDS_def)
      from attr_loop_fails [OF this assms(2), of Map.empty]
      obtain key where "attr_loop element WAY_FIELDS Map.empty = Inl (KeyError key)" ..
      with shape_element_way [OF tags nds] a show ?thesis by simp
    qed
  qed
qed

theorem missing_required_attribute_fails_witness:
  "tag node_no_uid = ''node'' \<and> attrib node_no_uid ''uid'' = None
   \<and> shape_element node_no_uid = Inl (KeyError ''uid'')"
  using missing_required_attribute_fails [of node_no_uid "''uid''"]
  by (simp add: node_no_uid_def node_attrs_def eval_defs)

text \<open>
  Claim C9: in what a successful shaping returns, every tag record and every way-node
  record carries the element's own \<open>id\<close> attribute, unchanged.
\<close>

theorem record_ids_are_element_id:
  assumes "shape_element element = Inr r"
  shows "case r of
           NodeResult node_attribs tags \<Rightarrow>
             (\<forall>t\<in>set tags. attrib element ''id'' = Some (t_id t))
         | WayResult way_attribs way_nodes tags \<Rightarrow>
             (\<forall>t\<in>set tags. attrib element ''id'' = Some (t_id t)) \<and>
             (\<forall>n\<in>set way_nodes. attrib element ''id'' = Some (nd_id n))
         | NoneResult \<Rightarrow> True"
proof (cases "tag_loop element (iter ''tag'' element) []")
  case (Inl err)
  with assms show ?thesis by (simp add: shape_element_tags_fail)
next
  case tags: (Inr tags)
  have t: "\<forall>t\<in>set tags. attrib element ''id'' = Some (t_id t)"
    using tag_loop_ids [OF tags] by simp
  show ?thesis
  proof (cases "nd_loop element (iter ''nd'' element) 0 []")
    case (Inl err)
    with assms tags show ?thesis by (simp add: shape_element_nd_fail)
  next
    case nds: (Inr way_nodes)
    have n: "\<forall>n\<in>set way_nodes. attrib element ''id'' = Some (nd_id n)"
      using nd_loop_ids [OF nds] by simp
    consider "tag element = ''node''" | "tag element = ''way''"
      | "tag element \<noteq> ''node''" "tag element \<noteq> ''way''" by blast
    then show ?thesis
    proof cases
      case 1
      with assms shape_element_node [OF tags nds] t show ?thesis
        by (auto split: sum.splits)
    next
      case 2
      with assms shape_element_way [OF tags nds] t n show ?thesis
        by (auto split: sum.splits)
    next
      case 3
      with assms shape_element_other [OF tags nds] show ?thesis by auto
    qed
  qed
qed

theorem record_ids_are_element_id_witness:
  "shape_element way_ring =
     Inr (WayResult
       [''id'' \<mapsto> ''209809850'', ''user'' \<mapsto> ''chicago-buildings'', ''uid'' \<mapsto> ''674454'',
        ''version'' \<mapsto> ''1'', ''changeset'' \<mapsto> ''15353317'',
        ''timestamp'' \<mapsto> ''2013-03-13T15:58:04Z'']
       [\<lparr>nd_id = ''209809850'', nd_node_id = ''2199822281'', nd_position = 0\<rparr>,
        \<lparr>nd_id = ''209809850'', nd_node_id = ''2199822390'', nd_position = 1\<rparr>,
        \<lparr>nd_id = ''209809850'', nd_node_id = ''2199822281'', nd_position = 2\<rparr>]
       [\<lparr>t_id = ''209809850'', t_key = ''building'', t_value = ''yes'', t_type = ''''\<rparr>])
   \<and> attrib way_ring ''id'' = Some ''209809850''"
  using record_ids_are_element_id [of way_ring
    "WayResult
       [''id'' \<mapsto> ''209809850'', ''user'' \<mapsto> ''chicago-buildings'', ''uid'' \<mapsto> ''674454'',
        ''version'' \<mapsto> ''1'', ''changeset'' \<mapsto> ''15353317'',
        ''timestamp'' \<mapsto> ''2013-03-13T15:58:04Z'']
       [\<lparr>nd_id = ''209809850'', nd_node_id = ''2199822281'', nd_position = 0\<rparr>,
        \<lparr>nd_id = ''209809850'', nd_node_id = ''2199822390'', nd_position = 1\<rparr>,
        \<lparr>nd_id = ''209809850'', nd_node_id = ''2199822281'', nd_position = 2\<rparr>]
       [\<lparr>t_id = ''209809850'', t_key = ''building'', t_value = ''yes'', t_type = ''''\<rparr>]"]
  by (simp add: way_ring_def way_attrs_def eval_defs)

text \<open>
  Claim C10: the \<open>nd\<close> sub-elements are scanned for every element, before its tag is
  looked at. An \<open>nd\<close> below the element that lacks \<open>ref\<close> makes the shaping fail (with
  \<open>KeyError ref\<close> when the scan of the tags raised nothing and the element has an
  \<open>id\<close>), for a node as for any other element; and what a node returns holds the node's
  attributes and the tag records only, no way-node record.
\<close>

theorem nd_scan_precedes_kind:
  assumes "tag element = ''node''"
    and "n \<in> set (iter ''nd'' element)"
  shows "(attrib n ''ref'' = None \<longrightarrow>
            (\<exists>key. shape_element element = Inl (KeyError key)) \<and>
            (attrib element ''id'' \<noteq> None \<and>
             (\<exists>tags. tag_loop element (iter ''tag'' element) [] = Inr tags) \<longrightarrow>
               shape_element element = Inl (KeyError ''ref'')))
       \<and> (\<forall>r. shape_element element = Inr r \<longrightarrow>
            (\<exists>node_attribs.
               r = NodeResult node_attribs
                     (projr (tag_loop element (iter ''tag'' element) []))))"
proof (cases "tag_loop element (iter ''tag'' element) []")
  case (Inl err)
  then have "shape_element element = Inl err" by (rule shape_element_tags_fail)
  moreover obtain key where "err = KeyError key" by (cases err)
  ultimately show ?thesis using Inl by simp
next
  case tags: (Inr tags)
  show ?thesis
  proof (cases "nd_loop element (iter ''nd'' element) 0 []")
    case (Inl err)
    with tags have s: "shape_element element = Inl err" by (rule shape_element_nd_fail)
    have "err = KeyError ''ref''" if "attrib n ''ref'' = None" "attrib element ''id'' \<noteq> None"
      using nd_loop_fails_ref [OF assms(2) that, of 0 "[]"] Inl by simp
    moreover obtain key where "err = KeyError key" by (cases err)
    ultimately show ?thesis using s by auto
  next
    case nds: (Inr way_nodes)
    have "attrib n ''ref'' \<noteq> None"
      using nd_loop_fails [OF assms(2), of element 0 "[]"] nds by auto
    with shape_element_node [OF tags nds assms(1)] tags show ?thesis
      by (auto split: sum.splits)
  qed
qed

theorem nd_scan_precedes_kind_witness:
  "tag node_nd_no_ref = ''node''
   \<and> iter ''nd'' node_nd_no_ref = [Element ''nd'' Map.empty []]
   \<and> attrib (Element ''nd'' Map.empty []) ''ref'' = None
   \<and> shape_element node_nd_no_ref = Inl (KeyError ''ref'')
   \<and> tag node_nd_ref = ''node''
   \<and> iter ''nd'' node_nd_ref = [Element ''nd'' [''ref'' \<mapsto> ''2199822281''] []]
   \<and> shape_element node_nd_ref =
       Inr (NodeResult
         [''id'' \<mapsto> ''757860928'', ''lat'' \<mapsto> ''41.9747374'', ''lon'' \<mapsto> ''-87.6920102'',
          ''user'' \<mapsto> ''uboot'', ''uid'' \<mapsto> ''26299'', ''version'' \<mapsto> ''2'',
          ''changeset'' \<mapsto> ''5288876'', ''timestamp'' \<mapsto> ''2010-07-22T16:16:51Z'']
         [])"
  using nd_scan_precedes_kind [of node_nd_no_ref "Element ''nd'' Map.empty []"]
    nd_scan_precedes_kind [of node_nd_ref "Element ''nd'' [''ref'' \<mapsto> ''2199822281''] []"]
  by (simp add: node_nd_no_ref_def node_nd_ref_def node_attrs_def eval_defs)

end
